theory Spec2Isabelle
  imports Main "HOL-Library.AList"
begin

section \<open>Configuration values, errors and log lines\<close>

text \<open>
  A configuration value of Go type \<^verbatim>\<open>interface{}\<close> as it reaches the driver factory:
  a string, a map (seen through \<^verbatim>\<open>cast.ToStringMap\<close>, so with string keys), or anything
  else. A Go map that is only looked up is an association list read with \<open>map_of\<close>.
\<close>

datatype cvalue = VString string | VMap "(string \<times> cvalue) list" | VOther

text \<open>
  \<^verbatim>\<open>drivers.Collection\<close>. The field \<^verbatim>\<open>Type\<close> is called \<open>CType\<close> here, because
  \<^verbatim>\<open>SourceConfig\<close> has a field \<^verbatim>\<open>Type\<close> too.
\<close>

record Collection =
  Name :: string
  CType :: string
  TableName :: string
  Parameters :: "(string \<times> cvalue) list"

text \<open>\<^verbatim>\<open>drivers.SourceConfig\<close>.\<close>

record SourceConfig =
  Type :: string
  Destinations :: "string list"
  Collections :: "cvalue list"
  Config :: "(string \<times> cvalue) list"

text \<open>
  Go errors. \<^verbatim>\<open>errors.New(msg)\<close> is \<open>New msg\<close>; \<^verbatim>\<open>fmt.Errorf(format, args...)\<close> is
  \<open>Errorf format args\<close>, kept unrendered with its arguments; a \<^verbatim>\<open>*multierror.Error\<close> is
  \<open>Multi\<close> of its \<^verbatim>\<open>Errors\<close> slice.
\<close>

datatype error = New string | Errorf string "fmt_arg list" | Multi "error list"
  and fmt_arg = ArgStr string | ArgErr error | ArgCollection Collection

datatype level = Info | Error | SystemError

datatype log_line = Logf level string "fmt_arg list"

section \<open>The driver factory (drivers/factory.go)\<close>

text \<open>
  A driver constructor, as registered by \<^verbatim>\<open>RegisterDriverConstructor\<close>: from the source
  configuration and one collection to a driver or an error. The package-level map
  \<^verbatim>\<open>driverConstructors\<close> and the JSON decoder that \<^verbatim>\<open>cast.ToStringMap\<close> applies to a
  string are the parameters of the factory.
\<close>

type_synonym 'd constructor = "SourceConfig \<Rightarrow> Collection \<Rightarrow> error + 'd"

record 'd drivers =
  driverConstructors :: "string \<Rightarrow> 'd constructor option"
  jsonStringToObject :: "string \<Rightarrow> (string \<times> cvalue) list"

definition unknownSource :: error where
  "unknownSource = New ''Unknown source type''"

definition collectionNameField :: string where
  "collectionNameField = ''name''"

definition collectionTableNameField :: string where
  "collectionTableNameField = ''table_name''"

definition collectionParametersField :: string where
  "collectionParametersField = ''parameters''"

definition getStringParameter :: "(string \<times> cvalue) list \<Rightarrow> string \<Rightarrow> string" where
  "getStringParameter dict parameterName =
     (case map_of dict parameterName of
        None \<Rightarrow> ''''
      | Some v \<Rightarrow> (case v of VString str \<Rightarrow> str | _ \<Rightarrow> ''''))"

text \<open>
  \<^verbatim>\<open>cast.ToStringMap\<close> of the library \<^verbatim>\<open>spf13/cast\<close>: a map is returned as it is, a
  string is decoded as a JSON object, and for every other value (a missing one too) the
  result is the empty map.
\<close>

definition ToStringMap :: "'d drivers \<Rightarrow> cvalue option \<Rightarrow> (string \<times> cvalue) list" where
  "ToStringMap drv i =
     (case i of
        Some (VMap m) \<Rightarrow> m
      | Some (VString s) \<Rightarrow> jsonStringToObject drv s
      | _ \<Rightarrow> [])"

text \<open>The first loop of \<^verbatim>\<open>Create\<close> (lines 52-74): the collections seen so far are \<open>acc\<close>.\<close>

fun normalizeCollections ::
  "'d drivers \<Rightarrow> cvalue list \<Rightarrow> Collection list \<Rightarrow> error + Collection list" where
  "normalizeCollections drv [] acc = Inr acc"
| "normalizeCollections drv (VString s # rest) acc =
     normalizeCollections drv rest
       (acc @ [\<lparr>Name = s, CType = s, TableName = '''', Parameters = []\<rparr>])"
| "normalizeCollections drv (VMap m # rest) acc =
     (let collectionConfigMap = ToStringMap drv (Some (VMap m));
          collectionName = getStringParameter collectionConfigMap collectionNameField
      in if collectionName = ''''
         then Inl (New ''[name] field of collection is not configured'')
         else
           let collectionType0 = getStringParameter collectionConfigMap ''type'';
               collectionType = (if collectionType0 = '''' then collectionName else collectionType0);
               collection = \<lparr>Name = collectionName, CType = collectionType,
                 TableName = getStringParameter collectionConfigMap collectionTableNameField,
                 Parameters = ToStringMap drv
                   (map_of collectionConfigMap collectionParametersField)\<rparr>
           in normalizeCollections drv rest (acc @ [collection]))"
| "normalizeCollections drv (VOther # rest) acc =
     Inl (New ''failed to parse source collections as array of string or collections structure'')"

text \<open>
  The second loop of \<^verbatim>\<open>Create\<close> (lines 90-96). The map \<^verbatim>\<open>driverPerCollection\<close> is an
  association list with one entry per key; \<^verbatim>\<open>m[k] = v\<close> is \<open>AList.update k v m\<close>.
\<close>

fun createDrivers ::
  "'d constructor \<Rightarrow> SourceConfig \<Rightarrow> Collection list \<Rightarrow> (string \<times> 'd) list
    \<Rightarrow> error + (string \<times> 'd) list" where
  "createDrivers createDriverFunc sourceConfig [] driverPerCollection = Inr driverPerCollection"
| "createDrivers createDriverFunc sourceConfig (collection # rest) driverPerCollection =
     (case createDriverFunc sourceConfig collection of
        Inl err \<Rightarrow>
          Inl (Errorf ''error creating [%s] driver for [%s] collection: %v''
                 [ArgStr (Type sourceConfig), ArgCollection collection, ArgErr err])
      | Inr driver \<Rightarrow>
          createDrivers createDriverFunc sourceConfig rest
            (AList.update (Name collection) driver driverPerCollection))"

text \<open>
  \<^verbatim>\<open>Create\<close>. The caller passes a pointer to the configuration, and \<^verbatim>\<open>Create\<close> writes
  the type through it: the result is the returned pair (as a sum), the configuration as
  \<^verbatim>\<open>Create\<close> leaves it, and the lines it logged.
\<close>

definition Create ::
  "'d drivers \<Rightarrow> string \<Rightarrow> SourceConfig
    \<Rightarrow> (error + (string \<times> 'd) list) \<times> SourceConfig \<times> log_line list" where
  "Create drv name sourceConfig0 =
     (let sourceConfig =
            (if Type sourceConfig0 = '''' then sourceConfig0\<lparr>Type := name\<rparr> else sourceConfig0)
      in case normalizeCollections drv (Collections sourceConfig) [] of
           Inl err \<Rightarrow> (Inl err, sourceConfig, [])
         | Inr collections \<Rightarrow>
            (let logged = [Logf Info ''[%s] Initializing source of type: %s''
                             [ArgStr name, ArgStr (Type sourceConfig)]]
             in if length collections = 0
                then (Inl (New ''collections are empty. Please specify at least one collection''),
                      sourceConfig, logged)
                else if length (Destinations sourceConfig) = 0
                then (Inl (New ''destinations are empty. Please specify at least one destination''),
                      sourceConfig, logged)
                else (case driverConstructors drv (Type sourceConfig) of
                        None \<Rightarrow> (Inl unknownSource, sourceConfig, logged)
                      | Some createDriverFunc \<Rightarrow>
                          (createDrivers createDriverFunc sourceConfig collections [],
                           sourceConfig, logged))))"

section \<open>The sources service (sources/service.go)\<close>

text \<open>\<^verbatim>\<open>Unit\<close>: the drivers of a source, one per collection, and its destination ids.\<close>

record 'd Unit =
  DriverPerCollection :: "(string \<times> 'd) list"
  DestinationIds :: "string list"

text \<open>
  \<^verbatim>\<open>SyncTask\<close>, with the fields of the literal in \<^verbatim>\<open>Sync\<close>. Its field
  \<^verbatim>\<open>metaStorage\<close> is called \<open>task_metaStorage\<close> here, because the service has a field
  \<^verbatim>\<open>metaStorage\<close> too. The types of drivers, storages, lock handles and the meta
  storage are parameters: \<open>'d\<close>, \<open>'s\<close>, \<open>'l\<close> and \<open>'m\<close>.
\<close>

record ('d, 's, 'l, 'm) SyncTask =
  sourceId :: string
  collection :: string
  "identifier" :: string
  driver :: 'd
  task_metaStorage :: 'm
  destinations :: "'s list"
  lock :: 'l

text \<open>
  What the service does to its collaborators (the lock client, the pool, the tasks, the
  destinations service, the meta storage) and to the log, in the order it happens.
\<close>

datatype ('d, 's, 'l, 'm) event =
    Logged log_line
  | CallGetStorageById string
  | CallLock string string
  | CallInvoke "('d, 's, 'l, 'm) SyncTask"
  | CallTaskSync "('d, 's, 'l, 'm) SyncTask"
  | CallUnlock 'l
  | CallGetCollectionStatus string string
  | CallGetCollectionLog string string

text \<open>A call of \<^verbatim>\<open>SyncTask.Sync\<close> returns or panics; it has no result.\<close>

datatype outcome = Returned | Panicked

text \<open>
  The collaborators, by what each call answers. \<open>GetStorageById\<close> answers a proxy when
  the destination is found, and the proxy is what its \<^verbatim>\<open>Get\<close> answers: the storage when
  it is ready. Within one call of \<^verbatim>\<open>Sync\<close> every lock and every submitted task has its
  own collection, so an answer that depends on the argument covers every pattern of
  failures.
\<close>

record ('d, 's, 'l, 'm) collaborators =
  GetStorageById :: "string \<Rightarrow> 's option option"
  monitorKeeper_Lock :: "string \<Rightarrow> string \<Rightarrow> error + 'l"
  pool_Invoke :: "('d, 's, 'l, 'm) SyncTask \<Rightarrow> error option"
  task_Sync :: "('d, 's, 'l, 'm) SyncTask \<Rightarrow> outcome"
  GetCollectionStatus :: "string \<Rightarrow> string \<Rightarrow> error + string"
  GetCollectionLog :: "string \<Rightarrow> string \<Rightarrow> error + string"

text \<open>
  The service: its map of sources and its meta storage, with the tasks the pool has
  accepted and not yet run, and the events so far. The map of sources is only looked up
  and updated by key, so it is a map \<open>string \<rightharpoonup> 'd Unit\<close>.
\<close>

record ('d, 's, 'l, 'm) Service =
  sources :: "string \<Rightarrow> 'd Unit option"
  metaStorage :: 'm
  pool_queue :: "('d, 's, 'l, 'm) SyncTask list"
  trace :: "('d, 's, 'l, 'm) event list"

definition emit ::
  "('d, 's, 'l, 'm) event \<Rightarrow> ('d, 's, 'l, 'm) Service \<Rightarrow> ('d, 's, 'l, 'm) Service" where
  "emit e s = s\<lparr>trace := trace s @ [e]\<rparr>"

subsection \<open>Loading and reloading the sources\<close>

text \<open>
  \<^verbatim>\<open>parseFromBytes\<close> (sources/parser.go) returns what \<^verbatim>\<open>json.Unmarshal\<close> left in the
  fresh map together with its error. The decoder is a parameter. The decoded map is
  ranged over by \<^verbatim>\<open>initDrivers\<close>, in an order Go does not fix: it is an association list
  with one entry per key, in the order of that iteration.
\<close>

type_synonym unmarshal = "string \<Rightarrow> (string \<times> SourceConfig) list \<times> error option"

definition parseFromBytes :: "unmarshal \<Rightarrow> string \<Rightarrow> (string \<times> SourceConfig) list \<times> error option" where
  "parseFromBytes json_Unmarshal b = (let (configs, err) = json_Unmarshal b in (configs, err))"

fun initDrivers ::
  "'d drivers \<Rightarrow> (string \<times> SourceConfig) list \<Rightarrow> ('d, 's, 'l, 'm) Service
    \<Rightarrow> ('d, 's, 'l, 'm) Service" where
  "initDrivers drv [] s = s"
| "initDrivers drv ((name, sourceConfig0) # rest) s =
     (case Create drv name sourceConfig0 of
        (Inl err, sourceConfig, logged) \<Rightarrow>
          initDrivers drv rest
            (emit (Logged (Logf Error ''[%s] Error initializing source of type %s: %v''
                     [ArgStr name, ArgStr (Type sourceConfig), ArgErr err]))
               (s\<lparr>trace := trace s @ map Logged logged\<rparr>))
      | (Inr driverPerCollection, sourceConfig, logged) \<Rightarrow>
          initDrivers drv rest
            (emit (Logged (Logf Info ''[%s] source has been initialized!'' [ArgStr name]))
               (s\<lparr>trace := trace s @ map Logged logged,
                  sources := (sources s)(name \<mapsto>
                    \<lparr>DriverPerCollection = driverPerCollection,
                     DestinationIds = Destinations sourceConfig\<rparr>)\<rparr>)))"

definition updateSources ::
  "unmarshal \<Rightarrow> 'd drivers \<Rightarrow> string \<Rightarrow> ('d, 's, 'l, 'm) Service \<Rightarrow> ('d, 's, 'l, 'm) Service" where
  "updateSources json_Unmarshal drv payload s =
     (case parseFromBytes json_Unmarshal payload of
        (sourceConfigs, Some err) \<Rightarrow>
          emit (Logged (Logf Error ''Error updating sources: %v'' [ArgErr err])) s
      | (sourceConfigs, None) \<Rightarrow> initDrivers drv sourceConfigs s)"

subsection \<open>Sync\<close>

text \<open>
  \<^verbatim>\<open>multierror.Append(err, e)\<close> of the library \<^verbatim>\<open>hashicorp/go-multierror\<close>, for one
  appended error: a nil \<open>err\<close> is \<open>None\<close>; errors that are themselves multi-errors are
  flattened.
\<close>

fun multierror_Append :: "error option \<Rightarrow> error \<Rightarrow> error" where
  "multierror_Append (Some (Multi es)) (Multi es') = Multi (es @ es')"
| "multierror_Append (Some (Multi es)) e = Multi (es @ [e])"
| "multierror_Append None (Multi es') = Multi es'"
| "multierror_Append None e = Multi [e]"
| "multierror_Append (Some err) (Multi es') = Multi (err # es')"
| "multierror_Append (Some err) e = Multi [err, e]"

text \<open>The loop over the destination ids (lines 174-188).\<close>

fun resolveDestinations ::
  "('d, 's, 'l, 'm) collaborators \<Rightarrow> string \<Rightarrow> string list \<Rightarrow> 's list
    \<Rightarrow> ('d, 's, 'l, 'm) Service \<Rightarrow> 's list \<times> ('d, 's, 'l, 'm) Service" where
  "resolveDestinations env sourceId' [] destinationStorages s = (destinationStorages, s)"
| "resolveDestinations env sourceId' (destinationId # rest) destinationStorages s =
     (let s1 = emit (CallGetStorageById destinationId) s
      in case GetStorageById env destinationId of
           Some storageProxy \<Rightarrow>
             (case storageProxy of
                Some storage \<Rightarrow>
                  resolveDestinations env sourceId' rest (destinationStorages @ [storage]) s1
              | None \<Rightarrow>
                  resolveDestinations env sourceId' rest destinationStorages
                    (emit (Logged (Logf SystemError
                       ''Unable to get destination [%s] in source [%s]: destination isn't initialized''
                       [ArgStr destinationId, ArgStr sourceId'])) s1))
         | None \<Rightarrow>
             resolveDestinations env sourceId' rest destinationStorages
               (emit (Logged (Logf SystemError
                  ''Unable to get destination [%s] in source [%s]: doesn't exist''
                  [ArgStr destinationId, ArgStr sourceId'])) s1))"

text \<open>The task of one collection, as the literal of lines 203-211 builds it.\<close>

definition newSyncTask ::
  "'m \<Rightarrow> string \<Rightarrow> string \<Rightarrow> 'd \<Rightarrow> 's list \<Rightarrow> 'l \<Rightarrow> ('d, 's, 'l, 'm) SyncTask" where
  "newSyncTask metaStorage' sourceId' collection' driver' destinationStorages collectionLock =
     \<lparr>sourceId = sourceId', collection = collection',
      identifier = sourceId' @ ''_'' @ collection',
      driver = driver', task_metaStorage = metaStorage',
      destinations = destinationStorages, lock = collectionLock\<rparr>"

text \<open>
  The loop over the collections (lines 194-216). The map \<^verbatim>\<open>DriverPerCollection\<close> is
  ranged over in an order Go does not fix: the list is the map in the order of this
  iteration, and what is proved of the loop is proved for every list.
\<close>

fun syncCollections ::
  "('d, 's, 'l, 'm) collaborators \<Rightarrow> string \<Rightarrow> 's list \<Rightarrow> (string \<times> 'd) list
    \<Rightarrow> error option \<Rightarrow> ('d, 's, 'l, 'm) Service
    \<Rightarrow> error option \<times> ('d, 's, 'l, 'm) Service" where
  "syncCollections env sourceId' destinationStorages [] multiErr s = (multiErr, s)"
| "syncCollections env sourceId' destinationStorages ((collection', driver') # rest) multiErr s =
     (let s1 = emit (CallLock sourceId' collection') s
      in case monitorKeeper_Lock env sourceId' collection' of
           Inl err \<Rightarrow>
             syncCollections env sourceId' destinationStorages rest
               (Some (multierror_Append multiErr
                  (Errorf ''Error locking [%s] source [%s] collection: %v''
                     [ArgStr sourceId', ArgStr collection', ArgErr err]))) s1
         | Inr collectionLock \<Rightarrow>
             (let task = newSyncTask (metaStorage s) sourceId' collection' driver'
                           destinationStorages collectionLock;
                  s2 = emit (CallInvoke task) s1
              in case pool_Invoke env task of
                   Some err \<Rightarrow>
                     syncCollections env sourceId' destinationStorages rest
                       (Some (multierror_Append multiErr
                          (Errorf
                             ''Error running sync task goroutine [%s] source [%s] collection: %v''
                             [ArgStr sourceId', ArgStr collection', ArgErr err]))) s2
                 | None \<Rightarrow>
                     syncCollections env sourceId' destinationStorages rest multiErr
                       (s2\<lparr>pool_queue := pool_queue s2 @ [task]\<rparr>)))"

definition Sync ::
  "('d, 's, 'l, 'm) collaborators \<Rightarrow> string \<Rightarrow> ('d, 's, 'l, 'm) Service
    \<Rightarrow> error option \<times> ('d, 's, 'l, 'm) Service" where
  "Sync env sourceId' s =
     (case sources s sourceId' of
        None \<Rightarrow> (Some (New ''Source doesn't exist''), s)
      | Some sourceUnit \<Rightarrow>
          (let (destinationStorages, s1) =
                 resolveDestinations env sourceId' (DestinationIds sourceUnit) [] s
           in if length destinationStorages = 0
              then (Some (New ''Empty destinations''), s1)
              else syncCollections env sourceId' destinationStorages
                     (DriverPerCollection sourceUnit) None s1))"

subsection \<open>GetStatus and GetLogs\<close>

text \<open>
  The loops of \<^verbatim>\<open>GetStatus\<close> and \<^verbatim>\<open>GetLogs\<close> over the collections: the first read
  that fails ends the call with its error and no map.
\<close>

fun collectStatuses ::
  "('d, 's, 'l, 'm) collaborators \<Rightarrow> string \<Rightarrow> (string \<times> 'd) list \<Rightarrow> (string \<times> string) list
    \<Rightarrow> ('d, 's, 'l, 'm) Service
    \<Rightarrow> (error + (string \<times> string) list) \<times> ('d, 's, 'l, 'm) Service" where
  "collectStatuses env sourceId' [] statuses s = (Inr statuses, s)"
| "collectStatuses env sourceId' ((collection', _) # rest) statuses s =
     (let s1 = emit (CallGetCollectionStatus sourceId' collection') s
      in case GetCollectionStatus env sourceId' collection' of
           Inl err \<Rightarrow> (Inl (Errorf ''Error getting collection status: %v'' [ArgErr err]), s1)
         | Inr status \<Rightarrow>
             collectStatuses env sourceId' rest (AList.update collection' status statuses) s1)"

definition GetStatus ::
  "('d, 's, 'l, 'm) collaborators \<Rightarrow> string \<Rightarrow> ('d, 's, 'l, 'm) Service
    \<Rightarrow> (error + (string \<times> string) list) \<times> ('d, 's, 'l, 'm) Service" where
  "GetStatus env sourceId' s =
     (case sources s sourceId' of
        None \<Rightarrow> (Inl (New ''Source doesn't exist''), s)
      | Some sourceUnit \<Rightarrow> collectStatuses env sourceId' (DriverPerCollection sourceUnit) [] s)"

fun collectLogs ::
  "('d, 's, 'l, 'm) collaborators \<Rightarrow> string \<Rightarrow> (string \<times> 'd) list \<Rightarrow> (string \<times> string) list
    \<Rightarrow> ('d, 's, 'l, 'm) Service
    \<Rightarrow> (error + (string \<times> string) list) \<times> ('d, 's, 'l, 'm) Service" where
  "collectLogs env sourceId' [] logsMap s = (Inr logsMap, s)"
| "collectLogs env sourceId' ((collection', _) # rest) logsMap s =
     (let s1 = emit (CallGetCollectionLog sourceId' collection') s
      in case GetCollectionLog env sourceId' collection' of
           Inl err \<Rightarrow> (Inl (Errorf ''Error getting collection logs: %v'' [ArgErr err]), s1)
         | Inr log \<Rightarrow>
             collectLogs env sourceId' rest (AList.update collection' log logsMap) s1)"

definition GetLogs ::
  "('d, 's, 'l, 'm) collaborators \<Rightarrow> string \<Rightarrow> ('d, 's, 'l, 'm) Service
    \<Rightarrow> (error + (string \<times> string) list) \<times> ('d, 's, 'l, 'm) Service" where
  "GetLogs env sourceId' s =
     (case sources s sourceId' of
        None \<Rightarrow> (Inl (New ''Source doesn't exist''), s)
      | Some sourceUnit \<Rightarrow> collectLogs env sourceId' (DriverPerCollection sourceUnit) [] s)"

subsection \<open>Running a task\<close>

text \<open>
  \<^verbatim>\<open>syncCollection\<close> is the function of the pool; its argument is an \<^verbatim>\<open>interface{}\<close>,
  a \<^verbatim>\<open>SyncTask\<close> or not. The deferred \<^verbatim>\<open>Unlock\<close> runs when \<^verbatim>\<open>Sync\<close> of the task has
  returned and when it has panicked; a panic goes on to the caller.
\<close>

datatype 't pool_arg = IsSyncTask 't | NotSyncTask

definition syncCollection ::
  "('d, 's, 'l, 'm) collaborators \<Rightarrow> ('d, 's, 'l, 'm) SyncTask pool_arg
    \<Rightarrow> ('d, 's, 'l, 'm) Service \<Rightarrow> outcome \<times> ('d, 's, 'l, 'm) Service" where
  "syncCollection env i s =
     (case i of
        NotSyncTask \<Rightarrow>
          (Returned, emit (Logged (Logf SystemError ''Sync task has unknown type: %T'' [])) s)
      | IsSyncTask synctTask \<Rightarrow>
          (let s1 = emit (CallTaskSync synctTask) s;
               r = task_Sync env synctTask
           in (r, emit (CallUnlock (lock synctTask)) s1)))"

text \<open>
  Modelled from the spec: the worker pool, of the library \<^verbatim>\<open>ants\<close>, is not among the
  sources. By section 4.3 of the specification a worker runs each submitted task once,
  and a panic inside the task is caught by the recovery boundary of the pool and ends
  neither the pool nor the other tasks. \<open>runPool\<close> runs every task the pool has accepted,
  in the order of submission.
\<close>

definition runPool ::
  "('d, 's, 'l, 'm) collaborators \<Rightarrow> ('d, 's, 'l, 'm) Service \<Rightarrow> ('d, 's, 'l, 'm) Service" where
  "runPool env s =
     foldl (\<lambda>s' task. snd (syncCollection env (IsSyncTask task) s'))
       (s\<lparr>pool_queue := []\<rparr>) (pool_queue s)"

section \<open>Granularity (drivers/granularity.go)\<close>

text \<open>
  A \<^verbatim>\<open>time.Time\<close> by the fields of its date and clock, as \<^verbatim>\<open>Year()\<close>, \<^verbatim>\<open>Month()\<close>,
  \<^verbatim>\<open>Day()\<close>, \<^verbatim>\<open>Hour()\<close>, \<^verbatim>\<open>Minute()\<close> and \<^verbatim>\<open>Second()\<close> answer them.
\<close>

record Time =
  Year :: int
  Month :: nat
  Day :: nat
  Hour :: nat
  Minute :: nat
  Second :: nat

text \<open>
  \<^verbatim>\<open>appendInt\<close> of the Go package \<^verbatim>\<open>time\<close>: the decimal digits of \<open>x\<close>, padded with
  zeros to the width, after a minus sign when \<open>x\<close> is negative.
\<close>

function digits :: "nat \<Rightarrow> string" where
  "digits u = (if 10 \<le> u then digits (u div 10) @ [''0123456789'' ! (u mod 10)]
               else [''0123456789'' ! u])"
  by pat_completeness auto
termination
  by (relation "measure (\<lambda>u. u)") auto

declare digits.simps [simp del]

definition appendInt :: "int \<Rightarrow> nat \<Rightarrow> string" where
  "appendInt x width =
     (let u = nat \<bar>x\<bar>; ds = digits u
      in (if x < 0 then ''-'' else []) @ replicate (width - length ds) (CHR ''0'') @ ds)"

text \<open>
  \<^verbatim>\<open>Time.Format\<close> of the Go package \<^verbatim>\<open>time\<close>, for the elements of a layout that begin
  with one of the digits \<open>0\<close>, \<open>1\<close> and \<open>2\<close>: \<open>2006\<close> is the year, \<open>2\<close> the day, \<open>01\<close> the
  month in two digits, \<open>02\<close> the day in two digits, \<open>03\<close> the hour of a twelve-hour
  clock, \<open>04\<close> the minute, \<open>05\<close> the second, \<open>06\<close> the year in two digits, \<open>15\<close> the hour
  and \<open>1\<close> the month. Every other character stands for itself; the layouts of
  \<^verbatim>\<open>Granularity.Format\<close> hold no element of another kind (a name of a month or a day, a
  zone, a fraction of a second, the day of the year of later versions of Go).
\<close>

fun time_Format :: "Time \<Rightarrow> string \<Rightarrow> string" where
  "time_Format t [] = []"
| "time_Format t (c # layout) =
     (if c = CHR ''2'' then
        (if take 3 layout = ''006''
         then appendInt (Year t) 4 @ time_Format t (drop 3 layout)
         else appendInt (int (Day t)) 0 @ time_Format t layout)
      else if c = CHR ''1'' then
        (if take 1 layout = ''5''
         then appendInt (int (Hour t)) 2 @ time_Format t (drop 1 layout)
         else appendInt (int (Month t)) 0 @ time_Format t layout)
      else if c = CHR ''0'' then
        (if take 1 layout = ''1''
         then appendInt (int (Month t)) 2 @ time_Format t (drop 1 layout)
         else if take 1 layout = ''2''
         then appendInt (int (Day t)) 2 @ time_Format t (drop 1 layout)
         else if take 1 layout = ''3''
         then appendInt (int (if Hour t mod 12 = 0 then 12 else Hour t mod 12)) 2
                @ time_Format t (drop 1 layout)
         else if take 1 layout = ''4''
         then appendInt (int (Minute t)) 2 @ time_Format t (drop 1 layout)
         else if take 1 layout = ''5''
         then appendInt (int (Second t)) 2 @ time_Format t (drop 1 layout)
         else if take 1 layout = ''6''
         then appendInt (\<bar>Year t\<bar> mod 100) 2 @ time_Format t (drop 1 layout)
         else c # time_Format t layout)
      else c # time_Format t layout)"

text \<open>
  \<^verbatim>\<open>Granularity\<close> is a string type, and a value of it may be none of the four constants.
  \<^verbatim>\<open>Format\<close> answers the string and the line it logs.
\<close>

type_synonym Granularity = string

definition DAY :: Granularity where
  "DAY = ''DAY''"

definition MONTH :: Granularity where
  "MONTH = ''MONTH''"

definition YEAR :: Granularity where
  "YEAR = ''YEAR''"

definition FOREVER :: Granularity where
  "FOREVER = ''FOREVER''"

definition Format :: "Granularity \<Rightarrow> Time \<Rightarrow> string \<times> log_line list" where
  "Format g t =
     (if g = DAY then (time_Format t ''2006-01-01'', [])
      else if g = MONTH then (time_Format t ''2006-01'', [])
      else if g = YEAR then (time_Format t ''2006'', [])
      else ([], [Logf SystemError ''Unknown granularity:'' [ArgStr g]]))"

section \<open>Notions of the properties\<close>

text \<open>
  What one turn of the loop of \<^verbatim>\<open>Sync\<close> does for a collection, taken alone: the task it
  hands to the pool, or the entry it appends to the aggregate error when the lock is
  refused or the pool rejects the task.
\<close>

definition dispatch ::
  "('d, 's, 'l, 'm) collaborators \<Rightarrow> 'm \<Rightarrow> string \<Rightarrow> 's list \<Rightarrow> string \<times> 'd
    \<Rightarrow> error + ('d, 's, 'l, 'm) SyncTask" where
  "dispatch env metaStorage' sourceId' destinationStorages cd =
     (case monitorKeeper_Lock env sourceId' (fst cd) of
        Inl err \<Rightarrow>
          Inl (Errorf ''Error locking [%s] source [%s] collection: %v''
                 [ArgStr sourceId', ArgStr (fst cd), ArgErr err])
      | Inr collectionLock \<Rightarrow>
          (let task = newSyncTask metaStorage' sourceId' (fst cd) (snd cd) destinationStorages
                        collectionLock
           in case pool_Invoke env task of
                Some err \<Rightarrow>
                  Inl (Errorf
                         ''Error running sync task goroutine [%s] source [%s] collection: %v''
                         [ArgStr sourceId', ArgStr (fst cd), ArgErr err])
              | None \<Rightarrow> Inr task))"

text \<open>
  Over the collections in the order of the iteration: the entries for the collections
  that fail, and the tasks of the collections that do not.
\<close>

definition dispatchErrors ::
  "('d, 's, 'l, 'm) collaborators \<Rightarrow> 'm \<Rightarrow> string \<Rightarrow> 's list \<Rightarrow> (string \<times> 'd) list
    \<Rightarrow> error list" where
  "dispatchErrors env metaStorage' sourceId' destinationStorages driverPerCollection =
     List.map_filter
       (\<lambda>cd. case dispatch env metaStorage' sourceId' destinationStorages cd of
               Inl e \<Rightarrow> Some e | Inr task \<Rightarrow> None) driverPerCollection"

definition dispatchedTasks ::
  "('d, 's, 'l, 'm) collaborators \<Rightarrow> 'm \<Rightarrow> string \<Rightarrow> 's list \<Rightarrow> (string \<times> 'd) list
    \<Rightarrow> ('d, 's, 'l, 'm) SyncTask list" where
  "dispatchedTasks env metaStorage' sourceId' destinationStorages driverPerCollection =
     List.map_filter
       (\<lambda>cd. case dispatch env metaStorage' sourceId' destinationStorages cd of
               Inl e \<Rightarrow> None | Inr task \<Rightarrow> Some task) driverPerCollection"

text \<open>The events and the tasks that a call has added, from the state before and after it.\<close>

definition newEvents ::
  "('d, 's, 'l, 'm) Service \<Rightarrow> ('d, 's, 'l, 'm) Service \<Rightarrow> ('d, 's, 'l, 'm) event list" where
  "newEvents s s' = drop (length (trace s)) (trace s')"

definition newTasks ::
  "('d, 's, 'l, 'm) Service \<Rightarrow> ('d, 's, 'l, 'm) Service \<Rightarrow> ('d, 's, 'l, 'm) SyncTask list" where
  "newTasks s s' = drop (length (pool_queue s)) (pool_queue s')"

text \<open>
  The entry that \<^verbatim>\<open>initDrivers\<close> writes for a source: the \<^verbatim>\<open>Unit\<close> of the drivers that
  \<^verbatim>\<open>Create\<close> answers, or none when \<^verbatim>\<open>Create\<close> fails.
\<close>

definition newUnit :: "'d drivers \<Rightarrow> string \<Rightarrow> SourceConfig \<Rightarrow> 'd Unit option" where
  "newUnit drv name sourceConfig0 =
     (case Create drv name sourceConfig0 of
        (Inl err, sourceConfig, logged) \<Rightarrow> None
      | (Inr driverPerCollection, sourceConfig, logged) \<Rightarrow>
          Some \<lparr>DriverPerCollection = driverPerCollection,
                DestinationIds = Destinations sourceConfig\<rparr>)"

text \<open>The storages of the destination ids that are found and ready, in their order.\<close>

definition liveStorages :: "('d, 's, 'l, 'm) collaborators \<Rightarrow> string list \<Rightarrow> 's list" where
  "liveStorages env ids =
     List.map_filter
       (\<lambda>destinationId. case GetStorageById env destinationId of
                           Some (Some storage) \<Rightarrow> Some storage
                         | _ \<Rightarrow> None) ids"

text \<open>An event that is a call of the lock client or of the pool.\<close>

definition locksOrDispatches :: "('d, 's, 'l, 'm) event \<Rightarrow> bool" where
  "locksOrDispatches e =
     (case e of CallLock _ _ \<Rightarrow> True | CallInvoke _ \<Rightarrow> True | CallUnlock _ \<Rightarrow> True
              | CallTaskSync _ \<Rightarrow> True | _ \<Rightarrow> False)"

text \<open>
  The errors with which \<^verbatim>\<open>Create\<close> rejects a configuration before it looks for a
  constructor (lines 61, 72, 78 and 81).
\<close>

definition ValidationError :: "error \<Rightarrow> bool" where
  "ValidationError e \<longleftrightarrow>
     e = New ''[name] field of collection is not configured''
     \<or> e = New ''failed to parse source collections as array of string or collections structure''
     \<or> e = New ''collections are empty. Please specify at least one collection''
     \<or> e = New ''destinations are empty. Please specify at least one destination''"

text \<open>A structured collection entry with no name, or with a name that is not a string.\<close>

definition missingName :: "'d drivers \<Rightarrow> cvalue \<Rightarrow> bool" where
  "missingName drv c =
     (case c of
        VMap m \<Rightarrow> getStringParameter (ToStringMap drv (Some (VMap m))) collectionNameField = ''''
      | _ \<Rightarrow> False)"

text \<open>The type \<^verbatim>\<open>Create\<close> works with: the name of the source when the field is empty.\<close>

definition typeOrName :: "string \<Rightarrow> SourceConfig \<Rightarrow> string" where
  "typeOrName name sourceConfig = (if Type sourceConfig = '''' then name else Type sourceConfig)"

section \<open>Examples\<close>

text \<open>
  One driver type, \<open>crm\<close>, whose constructor refuses the collection \<open>broken\<close>; a driver
  is named by its type and collection.
\<close>

definition example_constructor :: "string constructor" where
  "example_constructor sourceConfig c =
     (if Name c = ''broken'' then Inl (New ''no such collection'')
      else Inr (Type sourceConfig @ ''/'' @ Name c))"

definition example_drivers :: "string drivers" where
  "example_drivers =
     \<lparr>driverConstructors = (\<lambda>t. if t = ''crm'' then Some example_constructor else None),
      jsonStringToObject = (\<lambda>str. [])\<rparr>"

definition crm_config :: SourceConfig where
  "crm_config =
     \<lparr>Type = '''', Destinations = [''warehouse''],
      Collections = [VString ''contacts'', VString ''deals''], Config = []\<rparr>"

definition crm_no_destinations :: SourceConfig where
  "crm_no_destinations =
     \<lparr>Type = '''', Destinations = [],
      Collections = [VString ''contacts'', VString ''deals''], Config = []\<rparr>"

definition billing_config :: SourceConfig where
  "billing_config =
     \<lparr>Type = ''crm'', Destinations = [''warehouse''],
      Collections = [VMap [(''name'', VString ''invoices'')]], Config = []\<rparr>"

definition unknown_type_config :: SourceConfig where
  "unknown_type_config =
     \<lparr>Type = ''ftp'', Destinations = [''warehouse''],
      Collections = [VString ''files''], Config = []\<rparr>"

text \<open>
  A decoder that knows two payloads and fails on every other one, leaving an entry in
  the map it was decoding into.
\<close>

definition example_unmarshal :: unmarshal where
  "example_unmarshal b =
     (if b = ''crm'' then ([(''crm'', crm_config)], None)
      else if b = ''crm-without-destinations,billing''
      then ([(''crm'', crm_no_destinations), (''billing'', billing_config)], None)
      else ([(''crm'', crm_config)], Some (New ''unexpected end of JSON input'')))"

text \<open>
  Services whose drivers and storages are strings, whose lock handles are pairs of a
  source and a collection, and whose meta storage is the unit value.
\<close>

definition empty_service :: "(string, string, string \<times> string, unit) Service" where
  "empty_service = \<lparr>sources = Map.empty, metaStorage = (), pool_queue = [], trace = []\<rparr>"

definition legacy_unit :: "string Unit" where
  "legacy_unit =
     \<lparr>DriverPerCollection = [(''orders'', ''legacy/orders'')], DestinationIds = [''warehouse'']\<rparr>"

definition legacy_service :: "(string, string, string \<times> string, unit) Service" where
  "legacy_service =
     \<lparr>sources = (\<lambda>k. if k = ''legacy'' then Some legacy_unit else None),
      metaStorage = (), pool_queue = [], trace = []\<rparr>"

definition crm_unit :: "string Unit" where
  "crm_unit =
     \<lparr>DriverPerCollection = [(''contacts'', ''crm/contacts''), (''deals'', ''crm/deals'')],
      DestinationIds = [''warehouse'']\<rparr>"

definition crm_service :: "(string, string, string \<times> string, unit) Service" where
  "crm_service =
     \<lparr>sources = (\<lambda>k. if k = ''crm'' then Some crm_unit else None),
      metaStorage = (), pool_queue = [], trace = []\<rparr>"

text \<open>
  Collaborators that always succeed, with the one destination \<open>warehouse\<close>; then the
  same with a pool that has been closed, with a lock client that refuses the collection
  \<open>deals\<close>, and with a destination that is not ready.
\<close>

definition ready_env :: "(string, string, string \<times> string, unit) collaborators" where
  "ready_env =
     \<lparr>GetStorageById =
        (\<lambda>destinationId. if destinationId = ''warehouse'' then Some (Some ''warehouse-storage'')
                          else None),
      monitorKeeper_Lock = (\<lambda>sourceId' collection'. Inr (sourceId', collection')),
      pool_Invoke = (\<lambda>task. None),
      task_Sync = (\<lambda>task. Returned),
      GetCollectionStatus = (\<lambda>sourceId' collection'. Inr ''ok''),
      GetCollectionLog = (\<lambda>sourceId' collection'. Inr ''done'')\<rparr>"

definition closed_pool_env :: "(string, string, string \<times> string, unit) collaborators" where
  "closed_pool_env = ready_env\<lparr>pool_Invoke := (\<lambda>task. Some (New ''this pool has been closed''))\<rparr>"

definition deals_locked_env :: "(string, string, string \<times> string, unit) collaborators" where
  "deals_locked_env =
     ready_env\<lparr>monitorKeeper_Lock :=
       (\<lambda>sourceId' collection'.
          if collection' = ''deals'' then Inl (New ''lock is held'')
          else Inr (sourceId', collection'))\<rparr>"

definition not_ready_env :: "(string, string, string \<times> string, unit) collaborators" where
  "not_ready_env =
     ready_env\<lparr>GetStorageById :=
       (\<lambda>destinationId. if destinationId = ''warehouse'' then Some None else None)\<rparr>"

text \<open>Two times of March 2020, on different days.\<close>

definition march_5 :: Time where
  "march_5 = \<lparr>Year = 2020, Month = 3, Day = 5, Hour = 10, Minute = 30, Second = 0\<rparr>"

definition march_17 :: Time where
  "march_17 = \<lparr>Year = 2020, Month = 3, Day = 17, Hour = 23, Minute = 59, Second = 59\<rparr>"

section \<open>Properties of the driver factory\<close>

text \<open>
  C10. If the type field of the configuration is empty, \<^verbatim>\<open>Create\<close> uses the name of the
  source as its type: the configuration it leaves behind has the name as type (the type
  is written back through the pointer), the constructor is the one registered under the
  name, and the call is the same as the call on the configuration with the type field
  set to the name. So a source whose key is a registered driver type needs no type field.
\<close>

theorem Create_empty_type_uses_name:
  assumes "Type sourceConfig = ''''"
  shows "Type (fst (snd (Create drv name sourceConfig))) = name
    \<and> Create drv name sourceConfig = Create drv name (sourceConfig\<lparr>Type := name\<rparr>)
    \<and> (\<forall>collections.
         normalizeCollections drv (Collections sourceConfig) [] = Inr collections \<longrightarrow>
         collections \<noteq> [] \<longrightarrow> Destinations sourceConfig \<noteq> [] \<longrightarrow>
         fst (Create drv name sourceConfig)
           = (case driverConstructors drv name of
                None \<Rightarrow> Inl unknownSource
              | Some createDriverFunc \<Rightarrow>
                  createDrivers createDriverFunc (sourceConfig\<lparr>Type := name\<rparr>) collections []))"
  using assms
  by (auto simp: Create_def Let_def split: sum.splits option.splits)

theorem Create_empty_type_uses_name_witness:
  "Type crm_config = ''''
   \<and> Type (fst (snd (Create example_drivers ''crm'' crm_config))) = ''crm''
   \<and> fst (Create example_drivers ''crm'' crm_config)
       = Inr [(''contacts'', ''crm/contacts''), (''deals'', ''crm/deals'')]"
  using Create_empty_type_uses_name [of crm_config example_drivers "''crm''"]
  by (simp add: crm_config_def example_drivers_def example_constructor_def Create_def)

section \<open>Properties of loading and reloading\<close>

lemma emit_fields [simp]:
  "sources (emit e s) = sources s"
  "metaStorage (emit e s) = metaStorage s"
  "pool_queue (emit e s) = pool_queue s"
  "trace (emit e s) = trace s @ [e]"
  by (simp_all add: emit_def)

text \<open>
  The registry after \<^verbatim>\<open>initDrivers\<close>, key by key: a source of the payload that \<^verbatim>\<open>Create\<close>
  accepts has its new entry, and every other key has the entry it had.
\<close>

lemma initDrivers_sources:
  "distinct (map fst sourceConfigs) \<Longrightarrow>
   sources (initDrivers drv sourceConfigs s) name =
     (case map_of sourceConfigs name of
        None \<Rightarrow> sources s name
      | Some sourceConfig \<Rightarrow>
          (case newUnit drv name sourceConfig of None \<Rightarrow> sources s name | Some u \<Rightarrow> Some u))"
proof (induction sourceConfigs arbitrary: s)
  case Nil
  then show ?case by simp
next
  case (Cons a rest)
  obtain k cfg where a: "a = (k, cfg)" by (cases a)
  from Cons.prems a have d: "distinct (map fst rest)" and k: "k \<notin> fst ` set rest" by auto
  from k have none: "map_of rest k = None" by (simp add: map_of_eq_None_iff)
  obtain r cfg' logged where c: "Create drv k cfg = (r, cfg', logged)" by (cases "Create drv k cfg")
  show ?case
  proof (cases r)
    case (Inl err)
    with a c d none show ?thesis
      by (simp add: Cons.IH newUnit_def split: option.split)
  next
    case (Inr dpc)
    with a c d none show ?thesis
      by (simp add: Cons.IH newUnit_def split: option.split)
  qed
qed

text \<open>
  C6. A payload that fails to parse only adds one line to the log: the state after
  \<^verbatim>\<open>updateSources\<close> is the state before it with that line, so the registry, with every
  source id and every \<^verbatim>\<open>Unit\<close> in it, is as before, whatever the decoder had put in the
  map before it failed.
\<close>

theorem malformed_payload_keeps_registry:
  assumes "snd (parseFromBytes json_Unmarshal payload) = Some err"
  shows "updateSources json_Unmarshal drv payload s
           = emit (Logged (Logf Error ''Error updating sources: %v'' [ArgErr err])) s
    \<and> sources (updateSources json_Unmarshal drv payload s) = sources s
    \<and> pool_queue (updateSources json_Unmarshal drv payload s) = pool_queue s
    \<and> newEvents s (updateSources json_Unmarshal drv payload s)
         = [Logged (Logf Error ''Error updating sources: %v'' [ArgErr err])]"
  using assms
  by (cases "parseFromBytes json_Unmarshal payload")
     (simp add: updateSources_def newEvents_def)

theorem malformed_payload_keeps_registry_witness:
  "parseFromBytes example_unmarshal ''{''
     = ([(''crm'', crm_config)], Some (New ''unexpected end of JSON input''))
   \<and> sources (updateSources example_unmarshal example_drivers ''{'' legacy_service)
       = sources legacy_service
   \<and> sources (updateSources example_unmarshal example_drivers ''{'' legacy_service) ''crm'' = None
   \<and> trace (updateSources example_unmarshal example_drivers ''{'' legacy_service)
       = [Logged (Logf Error ''Error updating sources: %v''
            [ArgErr (New ''unexpected end of JSON input'')])]"
proof -
  have h: "snd (parseFromBytes example_unmarshal ''{'') = Some (New ''unexpected end of JSON input'')"
    by (simp add: parseFromBytes_def example_unmarshal_def)
  show ?thesis
    using malformed_payload_keeps_registry [OF h, of example_drivers legacy_service]
    by (simp add: parseFromBytes_def example_unmarshal_def legacy_service_def)
qed

text \<open>
  C2, as the code has it. A reload whose payload parses updates the registry source by
  source: a source of the payload that \<^verbatim>\<open>Create\<close> accepts is mapped to its new \<^verbatim>\<open>Unit\<close>,
  and every other source id, absent from the payload or rejected by \<^verbatim>\<open>Create\<close>, keeps
  the entry it had before the reload. The keys of the payload are distinct, as the keys
  of a Go map are.
\<close>

theorem reload_updates_source_by_source:
  assumes "parseFromBytes json_Unmarshal payload = (sourceConfigs, None)"
    and "distinct (map fst sourceConfigs)"
  shows "sources (updateSources json_Unmarshal drv payload s) name =
     (case map_of sourceConfigs name of
        None \<Rightarrow> sources s name
      | Some sourceConfig \<Rightarrow>
          (case newUnit drv name sourceConfig of None \<Rightarrow> sources s name | Some u \<Rightarrow> Some u))"
  using assms by (simp add: updateSources_def initDrivers_sources)

theorem reload_updates_source_by_source_witness:
  "parseFromBytes example_unmarshal ''crm'' = ([(''crm'', crm_config)], None)
   \<and> distinct (map fst [(''crm'', crm_config)])
   \<and> sources (updateSources example_unmarshal example_drivers ''crm'' legacy_service) ''crm''
       = Some \<lparr>DriverPerCollection = [(''contacts'', ''crm/contacts''), (''deals'', ''crm/deals'')],
               DestinationIds = [''warehouse'']\<rparr>"
proof -
  have h: "parseFromBytes example_unmarshal ''crm'' = ([(''crm'', crm_config)], None)"
    by (simp add: parseFromBytes_def example_unmarshal_def)
  have d: "distinct (map fst [(''crm'', crm_config)])" by simp
  show ?thesis
    using h reload_updates_source_by_source [OF h d, of example_drivers legacy_service "''crm''"]
    by (simp add: newUnit_def Create_def crm_config_def example_drivers_def
        example_constructor_def)
qed

text \<open>
  C2 as it is stated fails: the registry holds the source \<open>legacy\<close>, the payload parses
  and holds the source \<open>crm\<close> only, and after the reload \<open>legacy\<close> is still registered
  with its \<^verbatim>\<open>Unit\<close>.
\<close>

theorem reload_keeps_source_absent_from_payload:
  "snd (parseFromBytes example_unmarshal ''crm'') = None
   \<and> map fst (fst (parseFromBytes example_unmarshal ''crm'')) = [''crm'']
   \<and> sources legacy_service ''legacy'' = Some legacy_unit
   \<and> sources (updateSources example_unmarshal example_drivers ''crm'' legacy_service) ''legacy''
       = Some legacy_unit"
  by (simp add: parseFromBytes_def example_unmarshal_def updateSources_def legacy_service_def
      Create_def crm_config_def example_drivers_def example_constructor_def emit_def)

section \<open>Properties of registration\<close>

text \<open>What the first loop of \<^verbatim>\<open>Create\<close> answers, by the shape of the entries.\<close>

lemma normalizeCollections_error:
  "normalizeCollections drv cs acc = Inl e \<Longrightarrow>
   e = New ''[name] field of collection is not configured''
   \<or> e = New ''failed to parse source collections as array of string or collections structure''"
proof (induction cs arbitrary: acc)
  case Nil
  then show ?case by simp
next
  case (Cons c cs)
  then show ?case by (cases c) (auto simp: Let_def split: if_splits)
qed

lemma normalizeCollections_missingName:
  "\<exists>c\<in>set cs. missingName drv c \<Longrightarrow> \<exists>e. normalizeCollections drv cs acc = Inl e"
proof (induction cs arbitrary: acc)
  case Nil
  then show ?case by simp
next
  case (Cons c cs)
  then show ?case by (cases c) (auto simp: Let_def missingName_def)
qed

lemma normalizeCollections_length:
  "normalizeCollections drv cs acc = Inr cols \<Longrightarrow> length cols = length acc + length cs"
proof (induction cs arbitrary: acc)
  case Nil
  then show ?case by simp
next
  case (Cons c cs)
  then show ?case by (cases c) (auto simp: Let_def split: if_splits)
qed

lemma normalizeCollections_ok:
  "\<forall>c\<in>set cs. c \<noteq> VOther \<and> \<not> missingName drv c \<Longrightarrow>
   \<exists>cols. normalizeCollections drv cs acc = Inr cols"
proof (induction cs arbitrary: acc)
  case Nil
  then show ?case by simp
next
  case (Cons c cs)
  then show ?case by (cases c) (auto simp: Let_def missingName_def)
qed

lemma Create_validation:
  assumes "Destinations sourceConfig = [] \<or> Collections sourceConfig = []
           \<or> (\<exists>c\<in>set (Collections sourceConfig). missingName drv c)"
  shows "\<exists>e. fst (Create drv name sourceConfig) = Inl e \<and> ValidationError e"
proof (cases "normalizeCollections drv (Collections sourceConfig) []")
  case (Inl e)
  with normalizeCollections_error [OF Inl] show ?thesis
    by (auto simp: Create_def ValidationError_def)
next
  case (Inr cols)
  from normalizeCollections_length [OF Inr] have len: "length cols = length (Collections sourceConfig)"
    by simp
  from Inr normalizeCollections_missingName [of "Collections sourceConfig" drv "[]"]
  have nomiss: "\<not> (\<exists>c\<in>set (Collections sourceConfig). missingName drv c)" by auto
  with assms have "Destinations sourceConfig = [] \<or> cols = []" using len by auto
  with Inr show ?thesis
    by (auto simp: Create_def ValidationError_def Let_def)
qed

lemma Create_unknown:
  assumes "Collections sourceConfig \<noteq> []" "Destinations sourceConfig \<noteq> []"
    and "\<forall>c\<in>set (Collections sourceConfig). c \<noteq> VOther \<and> \<not> missingName drv c"
    and "driverConstructors drv (typeOrName name sourceConfig) = None"
  shows "fst (Create drv name sourceConfig) = Inl unknownSource"
proof -
  from normalizeCollections_ok [OF assms(3), of "[]"]
  obtain cols where c: "normalizeCollections drv (Collections sourceConfig) [] = Inr cols" by blast
  from normalizeCollections_length [OF c] assms(1) have "cols \<noteq> []" by auto
  with c assms(2,4) show ?thesis
    by (auto simp: Create_def Let_def typeOrName_def)
qed

lemma Create_billing:
  "Create example_drivers ''billing'' billing_config
     = (Inr [(''invoices'', ''crm/invoices'')], billing_config,
        [Logf Info ''[%s] Initializing source of type: %s'' [ArgStr ''billing'', ArgStr ''crm'']])"
  by (simp add: Create_def billing_config_def example_drivers_def
        example_constructor_def ToStringMap_def getStringParameter_def collectionNameField_def
        collectionTableNameField_def collectionParametersField_def Let_def)

lemma Create_crm_no_destinations:
  "Create example_drivers ''crm'' crm_no_destinations
     = (Inl (New ''destinations are empty. Please specify at least one destination''),
        \<lparr>Type = ''crm'', Destinations = [],
         Collections = [VString ''contacts'', VString ''deals''], Config = []\<rparr>,
        [Logf Info ''[%s] Initializing source of type: %s'' [ArgStr ''crm'', ArgStr ''crm'']])"
  by (simp add: Create_def crm_no_destinations_def)

text \<open>
  C7, as the code has it. A source of the payload whose destination list is empty,
  whose collection list is empty, or one of whose structured collection entries has no
  name is rejected by \<^verbatim>\<open>Create\<close> with one of its validation errors; a source that
  passes these checks, with every entry a name or a structure, and whose type (its name
  when the field is empty) has no registered constructor is rejected with
  \<^verbatim>\<open>unknownSource\<close>. In each case \<^verbatim>\<open>initDrivers\<close> leaves the entry of that source as it
  was before the call: absent if it was absent, the earlier \<^verbatim>\<open>Unit\<close> if an earlier load
  had registered it. Every source of the payload that \<^verbatim>\<open>Create\<close> accepts is registered
  with its new \<^verbatim>\<open>Unit\<close>.
\<close>

theorem failing_source_keeps_its_entry:
  assumes "distinct (map fst sourceConfigs)"
    and "(name, sourceConfig) \<in> set sourceConfigs"
  shows "(Destinations sourceConfig = [] \<or> Collections sourceConfig = []
            \<or> (\<exists>c\<in>set (Collections sourceConfig). missingName drv c)
          \<longrightarrow> (\<exists>e. fst (Create drv name sourceConfig) = Inl e \<and> ValidationError e)
              \<and> sources (initDrivers drv sourceConfigs s) name = sources s name)
    \<and> (Collections sourceConfig \<noteq> [] \<and> Destinations sourceConfig \<noteq> []
          \<and> (\<forall>c\<in>set (Collections sourceConfig). c \<noteq> VOther \<and> \<not> missingName drv c)
          \<and> driverConstructors drv (typeOrName name sourceConfig) = None
          \<longrightarrow> fst (Create drv name sourceConfig) = Inl unknownSource
              \<and> sources (initDrivers drv sourceConfigs s) name = sources s name)
    \<and> (\<forall>name' sourceConfig' u.
          (name', sourceConfig') \<in> set sourceConfigs \<longrightarrow>
          newUnit drv name' sourceConfig' = Some u \<longrightarrow>
          sources (initDrivers drv sourceConfigs s) name' = Some u)"
proof -
  have look: "map_of sourceConfigs n = Some c" if "(n, c) \<in> set sourceConfigs" for n c
    using that assms(1) by simp
  have failing: "sources (initDrivers drv sourceConfigs s) name = sources s name"
    if "fst (Create drv name sourceConfig) = Inl e" for e
  proof -
    from that have "newUnit drv name sourceConfig = None"
      by (cases "Create drv name sourceConfig") (simp add: newUnit_def)
    with look [OF assms(2)] show ?thesis
      by (simp add: initDrivers_sources [OF assms(1)])
  qed
  have one: "(\<exists>e. fst (Create drv name sourceConfig) = Inl e \<and> ValidationError e)
      \<and> sources (initDrivers drv sourceConfigs s) name = sources s name"
    if h: "Destinations sourceConfig = [] \<or> Collections sourceConfig = []
          \<or> (\<exists>c\<in>set (Collections sourceConfig). missingName drv c)"
  proof -
    from Create_validation [OF h, of name]
    obtain e where e: "fst (Create drv name sourceConfig) = Inl e" "ValidationError e" by auto
    from e failing [OF e(1)] show ?thesis by simp
  qed
  have two: "fst (Create drv name sourceConfig) = Inl unknownSource
      \<and> sources (initDrivers drv sourceConfigs s) name = sources s name"
    if h: "Collections sourceConfig \<noteq> [] \<and> Destinations sourceConfig \<noteq> []
          \<and> (\<forall>c\<in>set (Collections sourceConfig). c \<noteq> VOther \<and> \<not> missingName drv c)
          \<and> driverConstructors drv (typeOrName name sourceConfig) = None"
  proof -
    from h have "fst (Create drv name sourceConfig) = Inl unknownSource"
      by (intro Create_unknown) simp_all
    with failing show ?thesis by simp
  qed
  have three: "sources (initDrivers drv sourceConfigs s) n = Some u"
    if "(n, c) \<in> set sourceConfigs" "newUnit drv n c = Some u" for n c u
    using look [OF that(1)] that(2) by (simp add: initDrivers_sources [OF assms(1)])
  show ?thesis
  proof (intro conjI impI allI)
    assume "Destinations sourceConfig = [] \<or> Collections sourceConfig = []
          \<or> (\<exists>c\<in>set (Collections sourceConfig). missingName drv c)"
    from one [OF this] show "\<exists>e. fst (Create drv name sourceConfig) = Inl e \<and> ValidationError e"
      and "sources (initDrivers drv sourceConfigs s) name = sources s name" by simp_all
  next
    assume "Collections sourceConfig \<noteq> [] \<and> Destinations sourceConfig \<noteq> []
          \<and> (\<forall>c\<in>set (Collections sourceConfig). c \<noteq> VOther \<and> \<not> missingName drv c)
          \<and> driverConstructors drv (typeOrName name sourceConfig) = None"
    from two [OF this] show "fst (Create drv name sourceConfig) = Inl unknownSource"
      and "sources (initDrivers drv sourceConfigs s) name = sources s name" by simp_all
  next
    fix n c u
    assume "(n, c) \<in> set sourceConfigs" "newUnit drv n c = Some u"
    then show "sources (initDrivers drv sourceConfigs s) n = Some u" by (rule three)
  qed
qed

theorem failing_source_keeps_its_entry_witness:
  "Destinations crm_no_destinations = []
   \<and> fst (Create example_drivers ''crm'' crm_no_destinations)
       = Inl (New ''destinations are empty. Please specify at least one destination'')
   \<and> fst (Create example_drivers ''ftp'' unknown_type_config) = Inl unknownSource
   \<and> sources (initDrivers example_drivers
        [(''crm'', crm_no_destinations), (''ftp'', unknown_type_config),
         (''billing'', billing_config)] empty_service) ''crm'' = None
   \<and> sources (initDrivers example_drivers
        [(''crm'', crm_no_destinations), (''ftp'', unknown_type_config),
         (''billing'', billing_config)] empty_service) ''ftp'' = None
   \<and> sources (initDrivers example_drivers
        [(''crm'', crm_no_destinations), (''ftp'', unknown_type_config),
         (''billing'', billing_config)] empty_service) ''billing''
       = Some \<lparr>DriverPerCollection = [(''invoices'', ''crm/invoices'')],
               DestinationIds = [''warehouse'']\<rparr>"
proof -
  let ?cfgs = "[(''crm'', crm_no_destinations), (''ftp'', unknown_type_config),
                (''billing'', billing_config)]"
  let ?s = "initDrivers example_drivers ?cfgs empty_service"
  have d: "distinct (map fst ?cfgs)" by simp
  have crm: "(''crm'', crm_no_destinations) \<in> set ?cfgs" by simp
  have ftp: "(''ftp'', unknown_type_config) \<in> set ?cfgs" by simp
  have billing: "(''billing'', billing_config) \<in> set ?cfgs" by simp
  have e: "Destinations crm_no_destinations = []" by (simp add: crm_no_destinations_def)
  have u: "Collections unknown_type_config \<noteq> [] \<and> Destinations unknown_type_config \<noteq> []
      \<and> (\<forall>c\<in>set (Collections unknown_type_config). c \<noteq> VOther \<and> \<not> missingName example_drivers c)
      \<and> driverConstructors example_drivers (typeOrName ''ftp'' unknown_type_config) = None"
    by (simp add: unknown_type_config_def missingName_def example_drivers_def typeOrName_def)
  have b: "newUnit example_drivers ''billing'' billing_config
      = Some \<lparr>DriverPerCollection = [(''invoices'', ''crm/invoices'')],
              DestinationIds = [''warehouse'']\<rparr>"
    by (simp add: newUnit_def Create_billing) (simp add: billing_config_def)
  have c: "fst (Create example_drivers ''crm'' crm_no_destinations)
       = Inl (New ''destinations are empty. Please specify at least one destination'')"
    by (simp add: Create_crm_no_destinations)
  have none: "sources empty_service k = None" for k by (simp add: empty_service_def)
  note at_crm = failing_source_keeps_its_entry [OF d crm, of example_drivers empty_service]
  note at_ftp = failing_source_keeps_its_entry [OF d ftp, of example_drivers empty_service]
  have r1: "sources ?s ''crm'' = sources empty_service ''crm''"
    using at_crm [THEN conjunct1, rule_format, OF disjI1, OF e] by (rule conjunct2)
  have r2: "fst (Create example_drivers ''ftp'' unknown_type_config) = Inl unknownSource"
    using at_ftp [THEN conjunct2, THEN conjunct1, rule_format, OF u] by (rule conjunct1)
  have r3: "sources ?s ''ftp'' = sources empty_service ''ftp''"
    using at_ftp [THEN conjunct2, THEN conjunct1, rule_format, OF u] by (rule conjunct2)
  have r4: "sources ?s ''billing''
      = Some \<lparr>DriverPerCollection = [(''invoices'', ''crm/invoices'')],
              DestinationIds = [''warehouse'']\<rparr>"
    using at_crm [THEN conjunct2, THEN conjunct2, rule_format, OF billing b] .
  from e c r1 r2 r3 r4 none show ?thesis by simp
qed

text \<open>
  C7 as it is stated fails on a reload: \<open>crm\<close> is registered, the new payload gives it
  an empty destination list, \<^verbatim>\<open>Create\<close> rejects it, and after the reload \<open>crm\<close> is
  still in the registry, with its earlier \<^verbatim>\<open>Unit\<close>.
\<close>

theorem failing_source_stays_registered:
  "Destinations crm_no_destinations = []
   \<and> fst (Create example_drivers ''crm'' crm_no_destinations)
       = Inl (New ''destinations are empty. Please specify at least one destination'')
   \<and> parseFromBytes example_unmarshal ''crm-without-destinations,billing''
       = ([(''crm'', crm_no_destinations), (''billing'', billing_config)], None)
   \<and> sources crm_service ''crm'' = Some crm_unit
   \<and> sources (updateSources example_unmarshal example_drivers
        ''crm-without-destinations,billing'' crm_service) ''crm'' = Some crm_unit"
proof -
  have p: "parseFromBytes example_unmarshal ''crm-without-destinations,billing''
       = ([(''crm'', crm_no_destinations), (''billing'', billing_config)], None)"
    by (simp add: parseFromBytes_def example_unmarshal_def)
  have r: "sources (updateSources example_unmarshal example_drivers
        ''crm-without-destinations,billing'' crm_service) ''crm'' = Some crm_unit"
    by (simp add: updateSources_def p Create_crm_no_destinations Create_billing)
       (simp add: crm_service_def)
  have e: "Destinations crm_no_destinations = []" by (simp add: crm_no_destinations_def)
  have s: "sources crm_service ''crm'' = Some crm_unit" by (simp add: crm_service_def)
  from p r e s show ?thesis by (simp add: Create_crm_no_destinations)
qed

section \<open>Properties of Sync, GetStatus and GetLogs\<close>

text \<open>
  C5. For a source id that is not in the registry, \<^verbatim>\<open>Sync\<close>, \<^verbatim>\<open>GetStatus\<close> and
  \<^verbatim>\<open>GetLogs\<close> each answer the error \<open>Source doesn't exist\<close> and leave the state as it
  is: no event is added (no call of the lock client, of the pool or of the meta storage)
  and no task is queued.
\<close>

theorem unknown_source_is_NotFound:
  assumes "sources s sourceId' = None"
  shows "Sync env sourceId' s = (Some (New ''Source doesn't exist''), s)
    \<and> GetStatus env sourceId' s = (Inl (New ''Source doesn't exist''), s)
    \<and> GetLogs env sourceId' s = (Inl (New ''Source doesn't exist''), s)"
  using assms by (simp add: Sync_def GetStatus_def GetLogs_def)

theorem unknown_source_is_NotFound_witness:
  "sources crm_service ''billing'' = None
   \<and> Sync ready_env ''billing'' crm_service = (Some (New ''Source doesn't exist''), crm_service)
   \<and> GetStatus ready_env ''billing'' crm_service = (Inl (New ''Source doesn't exist''), crm_service)
   \<and> GetLogs ready_env ''billing'' crm_service = (Inl (New ''Source doesn't exist''), crm_service)
   \<and> newEvents crm_service (snd (Sync ready_env ''billing'' crm_service)) = []
   \<and> newTasks crm_service (snd (Sync ready_env ''billing'' crm_service)) = []"
proof -
  have h: "sources crm_service ''billing'' = None" by (simp add: crm_service_def)
  show ?thesis
    using h unknown_source_is_NotFound [OF h, of ready_env]
    by (simp add: newEvents_def newTasks_def)
qed

text \<open>The loop over the destination ids and the loop over the collections, as wholes.\<close>

lemma resolveDestinations_storages:
  "fst (resolveDestinations env sid ids acc s) = acc @ liveStorages env ids"
proof (induction ids arbitrary: acc s)
  case Nil
  then show ?case by (simp add: liveStorages_def map_filter_simps)
next
  case (Cons a ids)
  then show ?case
    by (cases "GetStorageById env a")
       (auto simp: liveStorages_def map_filter_simps Let_def split: option.splits)
qed

lemma resolveDestinations_state:
  "sources (snd (resolveDestinations env sid ids acc s)) = sources s
   \<and> metaStorage (snd (resolveDestinations env sid ids acc s)) = metaStorage s
   \<and> pool_queue (snd (resolveDestinations env sid ids acc s)) = pool_queue s
   \<and> (\<exists>evs. trace (snd (resolveDestinations env sid ids acc s)) = trace s @ evs
          \<and> (\<forall>e\<in>set evs. \<not> locksOrDispatches e))"
proof (induction ids arbitrary: acc s)
  case Nil
  then show ?case by simp
next
  case (Cons a ids)
  show ?case
  proof (cases "GetStorageById env a")
    case None
    let ?s1 = "emit (Logged (Logf SystemError
                  ''Unable to get destination [%s] in source [%s]: doesn't exist''
                  [ArgStr a, ArgStr sid])) (emit (CallGetStorageById a) s)"
    from Cons.IH [of acc ?s1] None show ?thesis
      by (auto simp: Let_def locksOrDispatches_def)
  next
    case (Some proxy)
    show ?thesis
    proof (cases proxy)
      case None
      let ?s1 = "emit (Logged (Logf SystemError
                  ''Unable to get destination [%s] in source [%s]: destination isn't initialized''
                  [ArgStr a, ArgStr sid])) (emit (CallGetStorageById a) s)"
      from Cons.IH [of acc ?s1] None Some show ?thesis
        by (auto simp: Let_def locksOrDispatches_def)
    next
      case (Some storage)
      from Cons.IH [of "acc @ [storage]" "emit (CallGetStorageById a) s"] Some \<open>GetStorageById env a = Some proxy\<close>
      show ?thesis
        by (auto simp: Let_def locksOrDispatches_def)
    qed
  qed
qed

lemma syncCollections_queue:
  "pool_queue (snd (syncCollections env sid dests dpc m s))
     = pool_queue s @ dispatchedTasks env (metaStorage s) sid dests dpc"
proof (induction dpc arbitrary: m s)
  case Nil
  then show ?case by (simp add: dispatchedTasks_def map_filter_simps)
next
  case (Cons a dpc)
  obtain c d where a: "a = (c, d)" by (cases a)
  show ?case
  proof (cases "monitorKeeper_Lock env sid c")
    case (Inl err)
    with a show ?thesis
      by (simp add: Cons.IH dispatchedTasks_def map_filter_simps dispatch_def)
  next
    case (Inr l)
    show ?thesis
    proof (cases "pool_Invoke env (newSyncTask (metaStorage s) sid c d dests l)")
      case None
      with a Inr show ?thesis
        by (simp add: Cons.IH dispatchedTasks_def map_filter_simps dispatch_def Let_def)
    next
      case (Some err)
      with a Inr show ?thesis
        by (simp add: Cons.IH dispatchedTasks_def map_filter_simps dispatch_def Let_def)
    qed
  qed
qed

lemma syncCollections_error:
  "fst (syncCollections env sid dests dpc m s)
     = foldl (\<lambda>m e. Some (multierror_Append m e)) m
         (dispatchErrors env (metaStorage s) sid dests dpc)"
proof (induction dpc arbitrary: m s)
  case Nil
  then show ?case by (simp add: dispatchErrors_def map_filter_simps)
next
  case (Cons a dpc)
  obtain c d where a: "a = (c, d)" by (cases a)
  show ?case
  proof (cases "monitorKeeper_Lock env sid c")
    case (Inl err)
    with a show ?thesis
      by (simp add: Cons.IH dispatchErrors_def map_filter_simps dispatch_def)
  next
    case (Inr l)
    show ?thesis
    proof (cases "pool_Invoke env (newSyncTask (metaStorage s) sid c d dests l)")
      case None
      with a Inr show ?thesis
        by (simp add: Cons.IH dispatchErrors_def map_filter_simps dispatch_def Let_def)
    next
      case (Some err)
      with a Inr show ?thesis
        by (simp add: Cons.IH dispatchErrors_def map_filter_simps dispatch_def Let_def)
    qed
  qed
qed

lemma dispatchErrors_Errorf:
  "e \<in> set (dispatchErrors env ms sid dests dpc) \<Longrightarrow> \<exists>f a. e = Errorf f a"
  by (induction dpc)
     (auto simp: dispatchErrors_def map_filter_simps dispatch_def Let_def
           split: sum.splits option.splits)

lemma Append_all_Multi:
  "\<forall>e\<in>set es. \<exists>f a. e = Errorf f a \<Longrightarrow>
   foldl (\<lambda>m e. Some (multierror_Append m e)) (Some (Multi xs)) es = Some (Multi (xs @ es))"
  by (induction es arbitrary: xs) auto

lemma Append_all_None:
  assumes "\<forall>e\<in>set es. \<exists>f a. e = Errorf f a"
  shows "foldl (\<lambda>m e. Some (multierror_Append m e)) None es
           = (if es = [] then None else Some (Multi es))"
proof (cases es)
  case Nil
  then show ?thesis by simp
next
  case (Cons e es')
  with assms obtain f a where e: "e = Errorf f a" by auto
  from assms Cons have "\<forall>e\<in>set es'. \<exists>f a. e = Errorf f a" by simp
  from Append_all_Multi [OF this, of "[e]"] Cons e show ?thesis by simp
qed

lemma syncCollections_aggregate:
  "fst (syncCollections env sid dests dpc None s)
     = (if dispatchErrors env (metaStorage s) sid dests dpc = [] then None
        else Some (Multi (dispatchErrors env (metaStorage s) sid dests dpc)))"
  using Append_all_None [of "dispatchErrors env (metaStorage s) sid dests dpc"]
    dispatchErrors_Errorf [of _ env "metaStorage s" sid dests dpc]
  by (simp add: syncCollections_error)

lemma length_dispatchErrors:
  "length (dispatchErrors env ms sid dests dpc)
     = length (filter (\<lambda>cd. isl (dispatch env ms sid dests cd)) dpc)"
  by (induction dpc) (auto simp: dispatchErrors_def map_filter_simps split: sum.splits)

lemma length_dispatchedTasks:
  "length (dispatchedTasks env ms sid dests dpc)
     = length dpc - length (filter (\<lambda>cd. isl (dispatch env ms sid dests cd)) dpc)"
proof -
  have "length (dispatchedTasks env ms sid dests dpc)
     + length (filter (\<lambda>cd. isl (dispatch env ms sid dests cd)) dpc) = length dpc"
    by (induction dpc) (auto simp: dispatchedTasks_def map_filter_simps split: sum.splits)
  then show ?thesis by simp
qed

lemma dispatch_task_fields:
  "dispatch env ms sid dests cd = Inr task \<Longrightarrow>
   sourceId task = sid \<and> collection task = fst cd \<and> identifier task = sid @ ''_'' @ fst cd
   \<and> driver task = snd cd \<and> destinations task = dests \<and> task_metaStorage task = ms
   \<and> monitorKeeper_Lock env sid (fst cd) = Inr (lock task)"
  by (auto simp: dispatch_def newSyncTask_def Let_def split: sum.splits option.splits)

lemma collection_dispatchedTasks:
  "map collection (dispatchedTasks env ms sid dests dpc)
     = map fst (filter (\<lambda>cd. \<not> isl (dispatch env ms sid dests cd)) dpc)"
  by (induction dpc)
     (auto simp: dispatchedTasks_def map_filter_simps dest: dispatch_task_fields
           split: sum.splits)

lemma dispatchedTasks_fields:
  "task \<in> set (dispatchedTasks env ms sid dests dpc) \<Longrightarrow>
   sourceId task = sid \<and> identifier task = sid @ ''_'' @ collection task
   \<and> (collection task, driver task) \<in> set dpc"
proof (induction dpc)
  case Nil
  then show ?case by (simp add: dispatchedTasks_def map_filter_simps)
next
  case (Cons a dpc)
  show ?case
  proof (cases "dispatch env ms sid dests a")
    case (Inl e)
    with Cons show ?thesis by (simp add: dispatchedTasks_def map_filter_simps)
  next
    case (Inr t)
    from dispatch_task_fields [OF Inr] Cons Inr show ?thesis
      by (cases a) (auto simp: dispatchedTasks_def map_filter_simps)
  qed
qed

lemma Sync_registered:
  assumes "sources s sid = Some u"
  shows "Sync env sid s =
     (if liveStorages env (DestinationIds u) = []
      then (Some (New ''Empty destinations''),
            snd (resolveDestinations env sid (DestinationIds u) [] s))
      else syncCollections env sid (liveStorages env (DestinationIds u))
             (DriverPerCollection u) None
             (snd (resolveDestinations env sid (DestinationIds u) [] s)))"
proof -
  obtain ds s1 where r: "resolveDestinations env sid (DestinationIds u) [] s = (ds, s1)"
    by (cases "resolveDestinations env sid (DestinationIds u) [] s")
  from resolveDestinations_storages [of env sid "DestinationIds u" "[]" s] r
  have "ds = liveStorages env (DestinationIds u)" by simp
  with r assms show ?thesis by (simp add: Sync_def)
qed

lemma set_liveStorages:
  "set (liveStorages env ids)
     = {storage. \<exists>destinationId\<in>set ids. GetStorageById env destinationId = Some (Some storage)}"
  by (induction ids) (auto simp: liveStorages_def map_filter_simps split: option.splits)

lemma liveStorages_empty:
  "\<forall>destinationId\<in>set ids.
      GetStorageById env destinationId = None \<or> GetStorageById env destinationId = Some None
   \<Longrightarrow> liveStorages env ids = []"
  by (induction ids) (auto simp: liveStorages_def map_filter_simps split: option.splits)

lemma newEvents_append: "trace s' = trace s @ evs \<Longrightarrow> newEvents s s' = evs"
  by (simp add: newEvents_def)

lemma newTasks_append: "pool_queue s' = pool_queue s @ ts \<Longrightarrow> newTasks s s' = ts"
  by (simp add: newTasks_def)

text \<open>A collection fails when its lock is refused or the pool rejects its task.\<close>

lemma dispatch_fails_iff:
  "isl (dispatch env ms sid dests (c, d)) \<longleftrightarrow>
     (case monitorKeeper_Lock env sid c of
        Inl err \<Rightarrow> True
      | Inr l \<Rightarrow> pool_Invoke env (newSyncTask ms sid c d dests l) \<noteq> None)"
  by (auto simp: dispatch_def Let_def split: sum.splits option.splits)

lemma Sync_newTasks:
  "newTasks s (snd (Sync env sid s)) =
     (case sources s sid of
        None \<Rightarrow> []
      | Some u \<Rightarrow>
          if liveStorages env (DestinationIds u) = [] then []
          else dispatchedTasks env (metaStorage s) sid (liveStorages env (DestinationIds u))
                 (DriverPerCollection u))"
proof (cases "sources s sid")
  case None
  then show ?thesis by (simp add: Sync_def newTasks_def)
next
  case (Some u)
  note st = resolveDestinations_state [of env sid "DestinationIds u" "[]" s]
  show ?thesis
  proof (cases "liveStorages env (DestinationIds u) = []")
    case True
    with Some st show ?thesis by (simp add: Sync_registered [OF Some] newTasks_def)
  next
    case False
    with Some st show ?thesis
      by (simp add: Sync_registered [OF Some] syncCollections_queue newTasks_append)
  qed
qed

lemma Sync_result_live:
  assumes "sources s sid = Some u" "liveStorages env (DestinationIds u) \<noteq> []"
  shows "fst (Sync env sid s) =
     (if dispatchErrors env (metaStorage s) sid (liveStorages env (DestinationIds u))
           (DriverPerCollection u) = [] then None
      else Some (Multi (dispatchErrors env (metaStorage s) sid
             (liveStorages env (DestinationIds u)) (DriverPerCollection u))))"
  using assms resolveDestinations_state [of env sid "DestinationIds u" "[]" s]
  by (simp add: Sync_registered [OF assms(1)] syncCollections_aggregate)

text \<open>
  C4. For a registered source all of whose destination ids are unknown or not ready,
  \<^verbatim>\<open>Sync\<close> answers the error \<open>Empty destinations\<close>, queues no task, and calls neither
  the lock client nor the pool. An id that is unknown or not ready is only left out: the
  storages handed on are those of the ids that are found and ready, and when there is at
  least one, \<^verbatim>\<open>Sync\<close> goes on to the loop over the collections with them and does not
  answer \<open>Empty destinations\<close>.
\<close>

theorem Sync_without_live_destination:
  assumes "sources s sid = Some u"
  shows "((\<forall>destinationId\<in>set (DestinationIds u).
             GetStorageById env destinationId = None
             \<or> GetStorageById env destinationId = Some None)
          \<longrightarrow> fst (Sync env sid s) = Some (New ''Empty destinations'')
              \<and> pool_queue (snd (Sync env sid s)) = pool_queue s
              \<and> trace (snd (Sync env sid s)) = trace s @ newEvents s (snd (Sync env sid s))
              \<and> (\<forall>e\<in>set (newEvents s (snd (Sync env sid s))). \<not> locksOrDispatches e))
    \<and> (liveStorages env (DestinationIds u) \<noteq> []
          \<longrightarrow> fst (Sync env sid s) \<noteq> Some (New ''Empty destinations'')
              \<and> Sync env sid s
                  = syncCollections env sid (liveStorages env (DestinationIds u))
                      (DriverPerCollection u) None
                      (snd (resolveDestinations env sid (DestinationIds u) [] s)))
    \<and> set (liveStorages env (DestinationIds u))
         = {storage. \<exists>destinationId\<in>set (DestinationIds u).
                        GetStorageById env destinationId = Some (Some storage)}"
proof (intro conjI impI)
  let ?s1 = "snd (resolveDestinations env sid (DestinationIds u) [] s)"
  note st = resolveDestinations_state [of env sid "DestinationIds u" "[]" s]
  {
    assume "\<forall>destinationId\<in>set (DestinationIds u).
             GetStorageById env destinationId = None
             \<or> GetStorageById env destinationId = Some None"
    then have empty: "liveStorages env (DestinationIds u) = []" by (rule liveStorages_empty)
    with Sync_registered [OF assms, of env]
    have S: "Sync env sid s = (Some (New ''Empty destinations''), ?s1)" by simp
    from S show "fst (Sync env sid s) = Some (New ''Empty destinations'')" by simp
    from S st show "pool_queue (snd (Sync env sid s)) = pool_queue s" by simp
    from st obtain evs where evs: "trace ?s1 = trace s @ evs" "\<forall>e\<in>set evs. \<not> locksOrDispatches e"
      by auto
    from newEvents_append [OF evs(1)] evs(1) S
    show "trace (snd (Sync env sid s)) = trace s @ newEvents s (snd (Sync env sid s))" by simp
    from newEvents_append [OF evs(1)] evs(2) S
    show "\<forall>e\<in>set (newEvents s (snd (Sync env sid s))). \<not> locksOrDispatches e" by simp
  }
  {
    assume live: "liveStorages env (DestinationIds u) \<noteq> []"
    with Sync_registered [OF assms, of env]
    show S: "Sync env sid s
                  = syncCollections env sid (liveStorages env (DestinationIds u))
                      (DriverPerCollection u) None ?s1" by simp
    show "fst (Sync env sid s) \<noteq> Some (New ''Empty destinations'')"
      by (simp add: S syncCollections_aggregate)
  }
  show "set (liveStorages env (DestinationIds u))
         = {storage. \<exists>destinationId\<in>set (DestinationIds u).
                        GetStorageById env destinationId = Some (Some storage)}"
    by (rule set_liveStorages)
qed

theorem Sync_without_live_destination_witness:
  "sources crm_service ''crm'' = Some crm_unit
   \<and> DestinationIds crm_unit = [''warehouse'']
   \<and> GetStorageById not_ready_env ''warehouse'' = Some None
   \<and> fst (Sync not_ready_env ''crm'' crm_service) = Some (New ''Empty destinations'')
   \<and> pool_queue (snd (Sync not_ready_env ''crm'' crm_service)) = []
   \<and> liveStorages ready_env (DestinationIds crm_unit) = [''warehouse-storage'']
   \<and> fst (Sync ready_env ''crm'' crm_service) \<noteq> Some (New ''Empty destinations'')"
proof -
  have reg: "sources crm_service ''crm'' = Some crm_unit" by (simp add: crm_service_def)
  have none: "\<forall>destinationId\<in>set (DestinationIds crm_unit).
         GetStorageById not_ready_env destinationId = None
         \<or> GetStorageById not_ready_env destinationId = Some None"
    by (simp add: crm_unit_def not_ready_env_def ready_env_def)
  have live: "liveStorages ready_env (DestinationIds crm_unit) = [''warehouse-storage'']"
    by (simp add: crm_unit_def ready_env_def liveStorages_def map_filter_simps)
  then have live': "liveStorages ready_env (DestinationIds crm_unit) \<noteq> []" by simp
  have q: "pool_queue crm_service = []" by (simp add: crm_service_def)
  note at_not_ready = Sync_without_live_destination [OF reg, of not_ready_env,
      THEN conjunct1, THEN mp, OF none]
  note at_ready = Sync_without_live_destination [OF reg, of ready_env,
      THEN conjunct2, THEN conjunct1, THEN mp, OF live', THEN conjunct1]
  have ids: "DestinationIds crm_unit = [''warehouse'']" by (simp add: crm_unit_def)
  have nr: "GetStorageById not_ready_env ''warehouse'' = Some None"
    by (simp add: not_ready_env_def ready_env_def)
  from reg ids nr live q at_not_ready at_ready show ?thesis by simp
qed

text \<open>
  C3. For a registered source with at least one live destination, if the lock or the
  submission fails for exactly one collection, \<^verbatim>\<open>Sync\<close> answers an aggregate error with
  exactly one entry, the entry of that collection, and the tasks it has queued are those
  of the other collections, one each: one less than the number of collections.
\<close>

theorem one_failing_collection:
  assumes "sources s sid = Some u"
    and "liveStorages env (DestinationIds u) \<noteq> []"
    and "length (filter
           (\<lambda>cd. isl (dispatch env (metaStorage s) sid (liveStorages env (DestinationIds u)) cd))
           (DriverPerCollection u)) = 1"
  shows "(\<exists>e. fst (Sync env sid s) = Some (Multi [e]))
    \<and> fst (Sync env sid s)
        = Some (Multi (dispatchErrors env (metaStorage s) sid
                  (liveStorages env (DestinationIds u)) (DriverPerCollection u)))
    \<and> newTasks s (snd (Sync env sid s))
        = dispatchedTasks env (metaStorage s) sid (liveStorages env (DestinationIds u))
            (DriverPerCollection u)
    \<and> length (newTasks s (snd (Sync env sid s))) = length (DriverPerCollection u) - 1
    \<and> map collection (newTasks s (snd (Sync env sid s)))
        = map fst (filter
            (\<lambda>cd. \<not> isl (dispatch env (metaStorage s) sid
                            (liveStorages env (DestinationIds u)) cd))
            (DriverPerCollection u))"
proof -
  let ?dests = "liveStorages env (DestinationIds u)"
  let ?errs = "dispatchErrors env (metaStorage s) sid ?dests (DriverPerCollection u)"
  let ?tasks = "dispatchedTasks env (metaStorage s) sid ?dests (DriverPerCollection u)"
  from assms(3) have len: "length ?errs = 1" by (simp add: length_dispatchErrors)
  then obtain e where e: "?errs = [e]" by (cases ?errs) auto
  from Sync_result_live [OF assms(1,2)] e
  have r: "fst (Sync env sid s) = Some (Multi ?errs)" by simp
  from Sync_newTasks [of s env sid] assms(1,2)
  have t: "newTasks s (snd (Sync env sid s)) = ?tasks" by simp
  from r e have "\<exists>e. fst (Sync env sid s) = Some (Multi [e])" by simp
  moreover note r t
  moreover from t assms(3) have "length (newTasks s (snd (Sync env sid s)))
      = length (DriverPerCollection u) - 1" by (simp add: length_dispatchedTasks)
  moreover from t have "map collection (newTasks s (snd (Sync env sid s)))
        = map fst (filter (\<lambda>cd. \<not> isl (dispatch env (metaStorage s) sid ?dests cd))
            (DriverPerCollection u))" by (simp add: collection_dispatchedTasks)
  ultimately show ?thesis by simp
qed

lemma Sync_deals_locked:
  "Sync deals_locked_env ''crm'' crm_service
     = (Some (Multi [Errorf ''Error locking [%s] source [%s] collection: %v''
                       [ArgStr ''crm'', ArgStr ''deals'', ArgErr (New ''lock is held'')]]),
        crm_service\<lparr>pool_queue :=
            [\<lparr>sourceId = ''crm'', collection = ''contacts'', identifier = ''crm_contacts'',
              driver = ''crm/contacts'', task_metaStorage = (),
              destinations = [''warehouse-storage''], lock = (''crm'', ''contacts'')\<rparr>],
          trace :=
            [CallGetStorageById ''warehouse'', CallLock ''crm'' ''contacts'',
             CallInvoke \<lparr>sourceId = ''crm'', collection = ''contacts'',
                identifier = ''crm_contacts'', driver = ''crm/contacts'', task_metaStorage = (),
                destinations = [''warehouse-storage''], lock = (''crm'', ''contacts'')\<rparr>,
             CallLock ''crm'' ''deals'']\<rparr>)"
  by (simp add: Sync_def crm_service_def crm_unit_def deals_locked_env_def ready_env_def
      emit_def newSyncTask_def Let_def)

theorem one_failing_collection_witness:
  "sources crm_service ''crm'' = Some crm_unit
   \<and> liveStorages deals_locked_env (DestinationIds crm_unit) = [''warehouse-storage'']
   \<and> filter (\<lambda>cd. isl (dispatch deals_locked_env (metaStorage crm_service) ''crm''
                 (liveStorages deals_locked_env (DestinationIds crm_unit)) cd))
         (DriverPerCollection crm_unit) = [(''deals'', ''crm/deals'')]
   \<and> fst (Sync deals_locked_env ''crm'' crm_service)
       = Some (Multi [Errorf ''Error locking [%s] source [%s] collection: %v''
                        [ArgStr ''crm'', ArgStr ''deals'', ArgErr (New ''lock is held'')]])
   \<and> length (newTasks crm_service (snd (Sync deals_locked_env ''crm'' crm_service))) = 1
   \<and> map collection (newTasks crm_service (snd (Sync deals_locked_env ''crm'' crm_service)))
       = [''contacts'']"
proof -
  have reg: "sources crm_service ''crm'' = Some crm_unit" by (simp add: crm_service_def)
  have live: "liveStorages deals_locked_env (DestinationIds crm_unit) = [''warehouse-storage'']"
    by (simp add: crm_unit_def deals_locked_env_def ready_env_def liveStorages_def
        map_filter_simps)
  then have live': "liveStorages deals_locked_env (DestinationIds crm_unit) \<noteq> []" by simp
  have f: "filter (\<lambda>cd. isl (dispatch deals_locked_env (metaStorage crm_service) ''crm''
                 (liveStorages deals_locked_env (DestinationIds crm_unit)) cd))
         (DriverPerCollection crm_unit) = [(''deals'', ''crm/deals'')]"
    by (simp add: live) (simp add: crm_unit_def dispatch_def deals_locked_env_def ready_env_def)
  then have one: "length (filter (\<lambda>cd. isl (dispatch deals_locked_env (metaStorage crm_service)
                 ''crm'' (liveStorages deals_locked_env (DestinationIds crm_unit)) cd))
         (DriverPerCollection crm_unit)) = 1" by simp
  have n: "length (DriverPerCollection crm_unit) = 2" by (simp add: crm_unit_def)
  have g: "map fst (filter (\<lambda>cd. \<not> isl (dispatch deals_locked_env (metaStorage crm_service)
                 ''crm'' (liveStorages deals_locked_env (DestinationIds crm_unit)) cd))
         (DriverPerCollection crm_unit)) = [''contacts'']"
    by (simp add: live) (simp add: crm_unit_def dispatch_def deals_locked_env_def ready_env_def)
  have e: "fst (Sync deals_locked_env ''crm'' crm_service)
       = Some (Multi [Errorf ''Error locking [%s] source [%s] collection: %v''
                        [ArgStr ''crm'', ArgStr ''deals'', ArgErr (New ''lock is held'')]])"
    by (simp add: Sync_deals_locked)
  note T = one_failing_collection [OF reg live' one]
  note t4 = T [THEN conjunct2, THEN conjunct2, THEN conjunct2, THEN conjunct1]
  note t5 = T [THEN conjunct2, THEN conjunct2, THEN conjunct2, THEN conjunct2]
  from reg live f e g n show ?thesis by (simp add: t4 t5)
qed

lemma identifier_dispatchedTasks:
  "map identifier (dispatchedTasks env ms sid dests dpc)
     = map (\<lambda>c. sid @ ''_'' @ c) (map collection (dispatchedTasks env ms sid dests dpc))"
  using dispatchedTasks_fields [of _ env ms sid dests dpc] by (simp add: comp_def)

text \<open>
  C8. The source \<open>crm\<close> is registered with the collections \<open>contacts\<close> and \<open>deals\<close>
  and the one destination \<open>warehouse\<close>, which is ready. The example is the run in which
  no turn of the loop fails: the lock client grants both locks and the pool accepts both
  tasks (a refused lock or a rejected task gives an entry of the aggregate error, as C3
  states). Then \<^verbatim>\<open>Sync\<close> answers nil and queues exactly two tasks, with the identifiers
  \<open>crm_contacts\<close> and \<open>crm_deals\<close>, in whichever order the map is ranged over. For every
  call of \<^verbatim>\<open>Sync\<close>, each task it queues has the identifier of its source, an
  underscore and its collection.
\<close>

theorem Sync_crm_example:
  assumes "sources s ''crm'' = Some u"
    and "DestinationIds u = [''warehouse'']"
    and "GetStorageById env ''warehouse'' = Some (Some storage)"
    and "distinct (map fst (DriverPerCollection u))"
    and "set (map fst (DriverPerCollection u)) = {''contacts'', ''deals''}"
    and "\<forall>cd\<in>set (DriverPerCollection u).
           \<not> isl (dispatch env (metaStorage s) ''crm'' [storage] cd)"
  shows "fst (Sync env ''crm'' s) = None
    \<and> length (newTasks s (snd (Sync env ''crm'' s))) = 2
    \<and> set (map identifier (newTasks s (snd (Sync env ''crm'' s))))
        = {''crm_contacts'', ''crm_deals''}
    \<and> (\<forall>task\<in>set (newTasks s' (snd (Sync env' sid' s'))).
          sourceId task = sid' \<and> identifier task = sourceId task @ ''_'' @ collection task)"
proof -
  let ?dpc = "DriverPerCollection u"
  from assms(2,3) have live: "liveStorages env (DestinationIds u) = [storage]"
    by (simp add: liveStorages_def map_filter_simps)
  from assms(6) have nofail: "filter (\<lambda>cd. isl (dispatch env (metaStorage s) ''crm'' [storage] cd)) ?dpc = []"
    by (simp add: filter_empty_conv)
  from assms(6) have all: "filter (\<lambda>cd. \<not> isl (dispatch env (metaStorage s) ''crm'' [storage] cd)) ?dpc = ?dpc"
    by (simp add: filter_id_conv)
  from nofail have noerr: "dispatchErrors env (metaStorage s) ''crm'' [storage] ?dpc = []"
    using length_dispatchErrors [of env "metaStorage s" "''crm''" "[storage]" ?dpc] by simp
  from Sync_result_live [OF assms(1), of env] live noerr
  have r: "fst (Sync env ''crm'' s) = None" by simp
  from Sync_newTasks [of s env "''crm''"] assms(1) live
  have t: "newTasks s (snd (Sync env ''crm'' s))
             = dispatchedTasks env (metaStorage s) ''crm'' [storage] ?dpc" by simp
  from distinct_card [OF assms(4)] assms(5) have n: "length ?dpc = 2" by simp
  from t nofail n have len: "length (newTasks s (snd (Sync env ''crm'' s))) = 2"
    by (simp add: length_dispatchedTasks)
  have "map identifier (newTasks s (snd (Sync env ''crm'' s)))
          = map (\<lambda>c. ''crm'' @ ''_'' @ c) (map fst ?dpc)"
    by (simp only: t identifier_dispatchedTasks collection_dispatchedTasks all)
  then have "set (map identifier (newTasks s (snd (Sync env ''crm'' s))))
          = (\<lambda>c. ''crm'' @ ''_'' @ c) ` set (map fst ?dpc)"
    by (simp only: set_map)
  with assms(5) have ids: "set (map identifier (newTasks s (snd (Sync env ''crm'' s))))
        = {''crm_contacts'', ''crm_deals''}" by simp
  have gen: "\<forall>task\<in>set (newTasks s' (snd (Sync env' sid' s'))).
          sourceId task = sid' \<and> identifier task = sourceId task @ ''_'' @ collection task"
    using dispatchedTasks_fields [of _ env' "metaStorage s'" sid']
    by (auto simp: Sync_newTasks split: option.splits if_splits)
  from r len ids gen show ?thesis by simp
qed

theorem Sync_crm_example_witness:
  "sources crm_service ''crm'' = Some crm_unit
   \<and> DestinationIds crm_unit = [''warehouse'']
   \<and> GetStorageById ready_env ''warehouse'' = Some (Some ''warehouse-storage'')
   \<and> map fst (DriverPerCollection crm_unit) = [''contacts'', ''deals'']
   \<and> fst (Sync ready_env ''crm'' crm_service) = None
   \<and> length (newTasks crm_service (snd (Sync ready_env ''crm'' crm_service))) = 2
   \<and> set (map identifier (newTasks crm_service (snd (Sync ready_env ''crm'' crm_service))))
       = {''crm_contacts'', ''crm_deals''}"
proof -
  have reg: "sources crm_service ''crm'' = Some crm_unit" by (simp add: crm_service_def)
  have dests: "DestinationIds crm_unit = [''warehouse'']" by (simp add: crm_unit_def)
  have ready: "GetStorageById ready_env ''warehouse'' = Some (Some ''warehouse-storage'')"
    by (simp add: ready_env_def)
  have keys: "map fst (DriverPerCollection crm_unit) = [''contacts'', ''deals'']"
    by (simp add: crm_unit_def)
  have d: "distinct (map fst (DriverPerCollection crm_unit))" by (simp add: keys)
  have k: "set (map fst (DriverPerCollection crm_unit)) = {''contacts'', ''deals''}"
    by (simp add: keys)
  have ok: "\<forall>cd\<in>set (DriverPerCollection crm_unit).
           \<not> isl (dispatch ready_env (metaStorage crm_service) ''crm'' [''warehouse-storage''] cd)"
    by (simp add: crm_unit_def dispatch_def ready_env_def)
  note T = Sync_crm_example [OF reg dests ready d k ok]
  note t1 = T [THEN conjunct1]
  note t2 = T [THEN conjunct2, THEN conjunct1]
  note t3 = T [THEN conjunct2, THEN conjunct2, THEN conjunct1]
  from reg dests ready keys t1 t2 t3 show ?thesis by simp
qed

section \<open>Properties of the lock\<close>

text \<open>
  A task that the pool runs releases its lock once, whether \<^verbatim>\<open>Sync\<close> of the task returns
  or panics.
\<close>

lemma syncCollection_unlocks_once:
  "trace (snd (syncCollection env (IsSyncTask task) s))
     = trace s @ [CallTaskSync task, CallUnlock (lock task)]"
  by (simp add: syncCollection_def Let_def)

text \<open>
  C1 fails on the code when the pool rejects a task. The lock of \<open>contacts\<close> is
  acquired, the pool, which has been closed, rejects the task, and \<^verbatim>\<open>Sync\<close> goes on to
  the next collection: when the pool has run all it accepted, the lock has not been
  released. With a pool that accepts the task the same lock is released once.
\<close>

theorem lock_not_released_when_pool_rejects:
  "monitorKeeper_Lock closed_pool_env ''crm'' ''contacts'' = Inr (''crm'', ''contacts'')
   \<and> pool_Invoke closed_pool_env
        (newSyncTask () ''crm'' ''contacts'' ''crm/contacts'' [''warehouse-storage'']
           (''crm'', ''contacts''))
       = Some (New ''this pool has been closed'')
   \<and> trace (runPool closed_pool_env (snd (Sync closed_pool_env ''crm'' crm_service)))
       = [CallGetStorageById ''warehouse'',
          CallLock ''crm'' ''contacts'',
          CallInvoke (newSyncTask () ''crm'' ''contacts'' ''crm/contacts''
             [''warehouse-storage''] (''crm'', ''contacts'')),
          CallLock ''crm'' ''deals'',
          CallInvoke (newSyncTask () ''crm'' ''deals'' ''crm/deals''
             [''warehouse-storage''] (''crm'', ''deals''))]
   \<and> count_list (trace (runPool closed_pool_env (snd (Sync closed_pool_env ''crm'' crm_service))))
         (CallUnlock (''crm'', ''contacts'')) = 0
   \<and> count_list (trace (runPool ready_env (snd (Sync ready_env ''crm'' crm_service))))
         (CallUnlock (''crm'', ''contacts'')) = 1"
  by (simp add: Sync_def runPool_def syncCollection_def crm_service_def crm_unit_def
      closed_pool_env_def ready_env_def emit_def newSyncTask_def Let_def)

section \<open>Properties of Granularity\<close>

lemma time_Format_day_layout:
  "time_Format t ''2006-01-01''
     = appendInt (Year t) 4 @ ''-'' @ appendInt (int (Month t)) 2 @ ''-''
         @ appendInt (int (Month t)) 2"
  by simp

text \<open>
  C9. For the granularity \<open>DAY\<close>, \<^verbatim>\<open>Format\<close> renders the year, the month and the
  month again, and never the day: two times of the same year and month are formatted
  alike, whatever their days.
\<close>

theorem DAY_Format_renders_month_twice:
  "fst (Format DAY t)
     = appendInt (Year t) 4 @ ''-'' @ appendInt (int (Month t)) 2 @ ''-''
         @ appendInt (int (Month t)) 2
   \<and> (Year t1 = Year t2 \<longrightarrow> Month t1 = Month t2 \<longrightarrow> Format DAY t1 = Format DAY t2)"
  by (simp add: Format_def)

lemma digits_examples:
  "digits 3 = ''3''" "digits 2020 = ''2020''"
  by (simp_all add: digits.simps)

theorem DAY_Format_renders_month_twice_witness:
  "Year march_5 = Year march_17 \<and> Month march_5 = Month march_17
   \<and> Day march_5 \<noteq> Day march_17
   \<and> Format DAY march_5 = (''2020-03-03'', [])
   \<and> Format DAY march_17 = (''2020-03-03'', [])"
proof -
  have y: "Year march_5 = Year march_17" and m: "Month march_5 = Month march_17"
    and d: "Day march_5 \<noteq> Day march_17"
    by (simp_all add: march_5_def march_17_def)
  note T = DAY_Format_renders_month_twice [of march_5 march_5 march_17]
  from T [THEN conjunct2, THEN mp, THEN mp, OF y m]
  have same: "Format DAY march_5 = Format DAY march_17" .
  have v: "Format DAY march_17 = (''2020-03-03'', [])"
    by (simp add: Format_def march_17_def appendInt_def digits_examples)
  from y m d same v show ?thesis by simp
qed

end
